theory Spec2Isabelle
  imports Complex_Main
begin

section \<open>Values and errors\<close>

text \<open>
  The notebook computes with Python and numpy floating-point numbers. They are modelled by
  the real numbers: rounding, overflow and underflow are not part of the model.

  Python raises exceptions; they are the left summand of a result. \<open>ValueError\<close> is what
  \<open>black_scholes\<close> raises for an option type it does not know and what numpy raises for
  a negative sample count. \<open>ZeroDivisionError\<close> is Python's error for \<open>S / K\<close> with
  \<open>K = 0\<close>.

  One exception comes from the size of a double and has no place on the reals: Python's
  \<open>sigma ** 2\<close> raises \<open>OverflowError\<close> once the square leaves the doubles, which is from
  \<open>\<bar>sigma\<bar> = 2 ^ 512\<close> on. The model has no such path. A statement about which errors
  occur therefore carries the hypothesis \<open>\<bar>sigma\<bar> < 2 ^ 512\<close>.

  numpy itself does not raise on a division by zero, on the logarithm of a number that is
  not positive or on the square root of a negative number: it warns, produces \<open>inf\<close> or
  \<open>nan\<close> and carries on. A result computed through such a step has no counterpart in the
  real numbers; it is \<open>Special\<close>, and the model says nothing more about it.
\<close>

datatype error = ValueError | ZeroDivisionError

datatype 'a np_value = Num 'a | Special

definition np_result :: "bool \<Rightarrow> 'a \<Rightarrow> 'a np_value" where
  "np_result defined v = (if defined then Num v else Special)"

section \<open>The standard normal distribution (\<open>scipy.stats.norm\<close>)\<close>

text \<open>
  \<open>norm.pdf\<close> is the density \<open>exp (- x\<^sup>2 / 2) / sqrt (2 pi)\<close>. \<open>norm.cdf\<close> is its
  antiderivative with value \<open>1 / 2\<close> at \<open>0\<close>: the integral of \<open>exp (- t\<^sup>2 / 2)\<close> from \<open>0\<close> to
  \<open>x\<close> is given by its power series, \<open>\<Sum>k. (- 1 / 2) ^ k * x ^ (2 k + 1) / (k! (2 k + 1))\<close>.
\<close>

definition norm_pdf :: "real \<Rightarrow> real" where
  "norm_pdf x = exp (- (x\<^sup>2) / 2) / sqrt (2 * pi)"

definition gauss_coeff :: "nat \<Rightarrow> real" where
  "gauss_coeff n = (if even n then 0
     else (- 1 / 2) ^ ((n - 1) div 2) / (fact ((n - 1) div 2) * real n))"

definition gauss_int :: "real \<Rightarrow> real" where
  "gauss_int x = (\<Sum>n. gauss_coeff n * x ^ n)"

definition norm_cdf :: "real \<Rightarrow> real" where
  "norm_cdf x = 1 / 2 + gauss_int x / sqrt (2 * pi)"

section \<open>The closed-form pricer\<close>

text \<open>
  \<open>np_defined S K T sigma\<close> holds when \<open>np.log (S / K)\<close>, \<open>np.sqrt T\<close> and the division by
  \<open>sigma * np.sqrt T\<close> are all defined on the reals.
\<close>

definition np_defined :: "real \<Rightarrow> real \<Rightarrow> real \<Rightarrow> real \<Rightarrow> bool" where
  "np_defined S K T sigma \<longleftrightarrow> 0 < S / K \<and> 0 < T \<and> sigma \<noteq> 0"

definition black_scholes ::
  "real \<Rightarrow> real \<Rightarrow> real \<Rightarrow> real \<Rightarrow> real \<Rightarrow> string \<Rightarrow> error + real np_value" where
  "black_scholes S K T r sigma option_type =
     (if K = 0 then Inl ZeroDivisionError
      else
        let d1 = (ln (S / K) + (r + 0.5 * sigma\<^sup>2) * T) / (sigma * sqrt T);
            d2 = d1 - sigma * sqrt T
        in if option_type = ''call''
           then Inr (np_result (np_defined S K T sigma)
                  (S * norm_cdf d1 - K * exp (- r * T) * norm_cdf d2))
           else if option_type = ''put''
           then Inr (np_result (np_defined S K T sigma)
                  (K * exp (- r * T) * norm_cdf (- d2) - S * norm_cdf (- d1)))
           else Inl ValueError)"

definition black_scholes_greeks ::
  "real \<Rightarrow> real \<Rightarrow> real \<Rightarrow> real \<Rightarrow> real \<Rightarrow> string \<Rightarrow> error + (string \<rightharpoonup> real) np_value" where
  "black_scholes_greeks S K T r sigma option_type =
     (if K = 0 then Inl ZeroDivisionError
      else
        let d1 = (ln (S / K) + (r + 0.5 * sigma\<^sup>2) * T) / (sigma * sqrt T);
            d2 = d1 - sigma * sqrt T;
            delta = (if option_type = ''call'' then norm_cdf d1 else norm_cdf d1 - 1);
            gamma = norm_pdf d1 / (S * sigma * sqrt T);
            vega = S * norm_pdf d1 * sqrt T;
            theta_call = - S * norm_pdf d1 * sigma / (2 * sqrt T)
                           - r * K * exp (- r * T) * norm_cdf d2;
            theta_put = - S * norm_pdf d1 * sigma / (2 * sqrt T)
                           + r * K * exp (- r * T) * norm_cdf (- d2);
            theta = (if option_type = ''call'' then theta_call else theta_put);
            rho_call = K * T * exp (- r * T) * norm_cdf d2;
            rho_put = - K * T * exp (- r * T) * norm_cdf (- d2);
            rho = (if option_type = ''call'' then rho_call else rho_put)
        in Inr (np_result (np_defined S K T sigma)
             [''Delta'' \<mapsto> delta,
              ''Gamma'' \<mapsto> gamma,
              ''Vega'' \<mapsto> vega / 100,
              ''Theta'' \<mapsto> theta / 365,
              ''Rho'' \<mapsto> rho / 100]))"

definition black_scholes_with_dividends ::
  "real \<Rightarrow> real \<Rightarrow> real \<Rightarrow> real \<Rightarrow> real \<Rightarrow> real \<Rightarrow> string \<Rightarrow> error + real np_value" where
  "black_scholes_with_dividends S K T r sigma q option_type =
     (if K = 0 then Inl ZeroDivisionError
      else
        let d1 = (ln (S / K) + (r - q + 0.5 * sigma\<^sup>2) * T) / (sigma * sqrt T);
            d2 = d1 - sigma * sqrt T
        in if option_type = ''call''
           then Inr (np_result (np_defined S K T sigma)
                  (S * exp (- q * T) * norm_cdf d1 - K * exp (- r * T) * norm_cdf d2))
           else Inr (np_result (np_defined S K T sigma)
                  (K * exp (- r * T) * norm_cdf (- d2) - S * exp (- q * T) * norm_cdf (- d1))))"

section \<open>The Monte Carlo estimator\<close>

text \<open>
  numpy's global random generator is state that the function changes. The generator
  itself is not part of the notebook: it is a parameter, given by how a seed becomes a
  state (\<open>np.random.seed\<close>) and how one standard-normal variate is drawn from a state.
  \<open>standard_normal\<close> draws \<open>n\<close> of them; the Monte Carlo function takes the state it is
  called in and returns its result with the state it leaves behind.

  numpy raises \<open>ValueError\<close> for a negative number of samples. The mean of no samples and
  the square root of a negative \<open>T\<close> are \<open>nan\<close>, under a warning.
\<close>

record 'g np_random =
  seed :: "nat \<Rightarrow> 'g"
  draw :: "'g \<Rightarrow> real \<times> 'g"

fun standard_normal :: "'g np_random \<Rightarrow> nat \<Rightarrow> 'g \<Rightarrow> real list \<times> 'g" where
  "standard_normal rng 0 g = ([], g)"
| "standard_normal rng (Suc n) g =
     (let (z, g') = draw rng g;
          (zs, g'') = standard_normal rng n g'
      in (z # zs, g''))"

definition mean :: "real list \<Rightarrow> real" where
  "mean xs = sum_list xs / real (length xs)"

definition monte_carlo_option_price ::
  "'g np_random \<Rightarrow> 'g \<Rightarrow> real \<Rightarrow> real \<Rightarrow> real \<Rightarrow> real \<Rightarrow> real \<Rightarrow> int \<Rightarrow> string
     \<Rightarrow> (error + real np_value) \<times> 'g" where
  "monte_carlo_option_price rng g_in S K T r sigma simulations option_type =
     (let g1 = seed rng 42
      in if simulations < 0 then (Inl ValueError, g1)
         else
           let (Z, g2) = standard_normal rng (nat simulations) g1;
               ST = map (\<lambda>z. S * exp ((r - 0.5 * sigma\<^sup>2) * T + sigma * sqrt T * z)) Z;
               payoff = (if option_type = ''call'' then map (\<lambda>st. max (st - K) 0) ST
                         else map (\<lambda>st. max (K - st) 0) ST)
           in (Inr (np_result (0 \<le> T \<and> simulations \<noteq> 0) (exp (- r * T) * mean payoff)), g2))"

section \<open>The implied-volatility solver\<close>

text \<open>
  \<open>scipy.optimize.brentq\<close> is not part of the notebook: it is a parameter of
  \<open>implied_volatility\<close>. It receives the objective, which may raise or leave the reals as
  the pricer does, and the two ends of the bracket. What it returns depends on the
  objective as a function on doubles; nothing is assumed of it here.
\<close>

type_synonym root_finder =
  "(real \<Rightarrow> error + real np_value) \<Rightarrow> real \<Rightarrow> real \<Rightarrow> error + real np_value"

definition objective ::
  "real \<Rightarrow> real \<Rightarrow> real \<Rightarrow> real \<Rightarrow> real \<Rightarrow> string \<Rightarrow> real \<Rightarrow> error + real np_value" where
  "objective target_price S K T r option_type sigma =
     (case black_scholes S K T r sigma option_type of
        Inl e \<Rightarrow> Inl e
      | Inr Special \<Rightarrow> Inr Special
      | Inr (Num price) \<Rightarrow> Inr (Num (price - target_price)))"

definition implied_volatility ::
  "root_finder \<Rightarrow> real \<Rightarrow> real \<Rightarrow> real \<Rightarrow> real \<Rightarrow> real \<Rightarrow> string \<Rightarrow> error + real np_value" where
  "implied_volatility brentq target_price S K T r option_type =
     brentq (objective target_price S K T r option_type) (1 / 10 ^ 5) 3"

section \<open>Auxiliary definitions\<close>

text \<open>The two arguments of the normal distribution and the two prices as real functions.\<close>

definition bs_d1 :: "real \<Rightarrow> real \<Rightarrow> real \<Rightarrow> real \<Rightarrow> real \<Rightarrow> real" where
  "bs_d1 S K T r sigma = (ln (S / K) + (r + 0.5 * sigma\<^sup>2) * T) / (sigma * sqrt T)"

definition bs_d2 :: "real \<Rightarrow> real \<Rightarrow> real \<Rightarrow> real \<Rightarrow> real \<Rightarrow> real" where
  "bs_d2 S K T r sigma = bs_d1 S K T r sigma - sigma * sqrt T"

definition call_price :: "real \<Rightarrow> real \<Rightarrow> real \<Rightarrow> real \<Rightarrow> real \<Rightarrow> real" where
  "call_price S K T r sigma =
     S * norm_cdf (bs_d1 S K T r sigma) - K * exp (- r * T) * norm_cdf (bs_d2 S K T r sigma)"

definition put_price :: "real \<Rightarrow> real \<Rightarrow> real \<Rightarrow> real \<Rightarrow> real \<Rightarrow> real" where
  "put_price S K T r sigma =
     K * exp (- r * T) * norm_cdf (- bs_d2 S K T r sigma) - S * norm_cdf (- bs_d1 S K T r sigma)"

text \<open>
  The integrals of the powers of the cosine, by the reduction formula, and their values
  at \<open>pi / 2\<close>: they bound the integral of the Gaussian.
\<close>

fun cos_int :: "nat \<Rightarrow> real \<Rightarrow> real" where
  "cos_int 0 t = t"
| "cos_int (Suc 0) t = sin t"
| "cos_int (Suc (Suc k)) t =
     (cos t ^ Suc k * sin t + real (k + 1) * cos_int k t) / real (k + 2)"

definition wallis :: "nat \<Rightarrow> real" where
  "wallis k = cos_int k (pi / 2)"

section \<open>The Gaussian integral\<close>

text \<open>
  The power series \<open>gauss_int\<close> converges everywhere, is odd, vanishes at \<open>0\<close> and has the
  derivative \<open>exp (- x\<^sup>2 / 2)\<close>. It stays strictly below \<open>sqrt (pi / 2)\<close>: for every
  \<open>m\<close>, \<open>exp (- x\<^sup>2 / 2) \<le> (1 + x\<^sup>2 / (2 m + 2)) ^ - (m + 1)\<close>, whose integral is
  \<open>sqrt (2 m + 2)\<close> times an integral of \<open>cos ^ (2 m)\<close>, and the integrals of the powers of
  the cosine over a quarter period obey \<open>wallis (2 m) \<le> sqrt (pi / (4 m))\<close>.
\<close>

lemma gauss_term_bound:
  "norm ((- 1 / 2) ^ k / (fact k * real (2 * k + 1)) * x ^ (2 * k + 1))
      \<le> \<bar>x\<bar> * ((x\<^sup>2 / 2) ^ k /\<^sub>R fact k)"
proof -
  have p: "\<bar>x ^ (2 * k + 1)\<bar> = \<bar>x\<bar> * (x\<^sup>2) ^ k"
    by (simp add: power_mult abs_mult power_abs)
  have q: "\<bar>(- 1 / 2 :: real) ^ k\<bar> = (1 / 2) ^ k"
    by (simp add: power_abs)
  have "norm ((- 1 / 2) ^ k / (fact k * real (2 * k + 1)) * x ^ (2 * k + 1))
      = \<bar>(- 1 / 2 :: real) ^ k\<bar> / (fact k * real (2 * k + 1)) * \<bar>x ^ (2 * k + 1)\<bar>"
    by (simp only: real_norm_def abs_mult abs_divide) simp
  also have "\<dots> = (\<bar>x\<bar> * ((1 / 2) ^ k * (x\<^sup>2) ^ k) / fact k) / real (2 * k + 1)"
    by (simp only: p q) (simp add: field_simps)
  also have "\<dots> \<le> (\<bar>x\<bar> * ((1 / 2) ^ k * (x\<^sup>2) ^ k) / fact k) / 1"
    by (intro divide_left_mono) (auto intro!: mult_nonneg_nonneg divide_nonneg_nonneg)
  also have "\<dots> = \<bar>x\<bar> * ((x\<^sup>2 / 2) ^ k /\<^sub>R fact k)"
    by (simp add: power_divide field_simps)
  finally show ?thesis .
qed

lemma gauss_term_summable:
  "summable (\<lambda>k. (- 1 / 2) ^ k / (fact k * real (2 * k + 1)) * x ^ (2 * k + 1))"
proof (rule summable_comparison_test')
  have "summable (\<lambda>k. (x\<^sup>2 / 2) ^ k /\<^sub>R fact k)"
    using exp_converges [of "x\<^sup>2 / 2"] by (simp only: sums_iff)
  then show "summable (\<lambda>k. \<bar>x\<bar> * ((x\<^sup>2 / 2) ^ k /\<^sub>R fact k))"
    by (rule summable_mult)
next
  fix k :: nat
  show "norm ((- 1 / 2) ^ k / (fact k * real (2 * k + 1)) * x ^ (2 * k + 1))
      \<le> \<bar>x\<bar> * ((x\<^sup>2 / 2) ^ k /\<^sub>R fact k)"
    by (rule gauss_term_bound)
qed

lemma gauss_coeff_summable: "summable (\<lambda>n. gauss_coeff n * x ^ n)"
proof -
  let ?g = "\<lambda>k. (- 1 / 2) ^ k / (fact k * real (2 * k + 1)) * x ^ (2 * k + 1)"
  have "(\<lambda>n. if even n then 0 else ?g ((n - 1) div 2)) sums suminf ?g"
    using summable_sums [OF gauss_term_summable] by (rule sums_if')
  moreover have "(\<lambda>n. if even n then 0 else ?g ((n - 1) div 2)) = (\<lambda>n. gauss_coeff n * x ^ n)"
    by (rule ext) (auto simp: gauss_coeff_def elim!: oddE)
  ultimately show ?thesis
    by (simp only: sums_iff)
qed

lemma diffs_gauss_coeff:
  "diffs gauss_coeff n = (if even n then (- 1 / 2) ^ (n div 2) / fact (n div 2) else 0)"
  by (auto simp: diffs_def gauss_coeff_def)

lemma diffs_gauss_sums: "(\<lambda>n. diffs gauss_coeff n * x ^ n) sums exp (- (x\<^sup>2) / 2)"
proof -
  let ?f = "\<lambda>k. (- (x\<^sup>2) / 2) ^ k /\<^sub>R fact k"
  have "(\<lambda>n. if even n then ?f (n div 2) else (\<lambda>_. 0) ((n - 1) div 2)) sums (0 + exp (- (x\<^sup>2) / 2))"
    by (rule sums_if [of "\<lambda>_. 0" 0 ?f "exp (- (x\<^sup>2) / 2)", OF sums_zero exp_converges])
  moreover have "(\<lambda>n. if even n then ?f (n div 2) else 0) = (\<lambda>n. diffs gauss_coeff n * x ^ n)"
  proof (rule ext)
    fix n
    show "(if even n then ?f (n div 2) else 0) = diffs gauss_coeff n * x ^ n"
    proof (cases "even n")
      case True
      then obtain k where n: "n = 2 * k" by (auto elim: evenE)
      have "(- (x\<^sup>2) / 2) ^ k = ((- 1 / 2) * x\<^sup>2) ^ k"
        by simp
      also have "\<dots> = (- 1 / 2) ^ k * (x\<^sup>2) ^ k"
        by (rule power_mult_distrib)
      finally have "(- (x\<^sup>2) / 2) ^ (2 * k div 2) = (- 1 / 2) ^ k * x ^ (2 * k)"
        by (simp add: power_mult)
      then show ?thesis
        unfolding n by (simp add: diffs_gauss_coeff field_simps)
    next
      case False
      then show ?thesis by (simp add: diffs_gauss_coeff)
    qed
  qed
  ultimately show ?thesis by simp
qed

lemma DERIV_gauss_int: "(gauss_int has_real_derivative exp (- (x\<^sup>2) / 2)) (at x)"
proof -
  have "((\<lambda>x. \<Sum>n. gauss_coeff n * x ^ n) has_real_derivative (\<Sum>n. diffs gauss_coeff n * x ^ n)) (at x)"
    by (rule termdiffs_strong_converges_everywhere) (rule gauss_coeff_summable)
  moreover have "(\<Sum>n. diffs gauss_coeff n * x ^ n) = exp (- (x\<^sup>2) / 2)"
    using diffs_gauss_sums [of x] by (simp add: sums_iff)
  moreover have "(\<lambda>x. \<Sum>n. gauss_coeff n * x ^ n) = gauss_int"
    by (rule ext) (simp add: gauss_int_def)
  ultimately show ?thesis by simp
qed

lemma gauss_int_0: "gauss_int 0 = 0"
  by (simp add: gauss_int_def gauss_coeff_def)

lemma gauss_int_minus: "gauss_int (- x) = - gauss_int x"
proof -
  have "(\<lambda>n. gauss_coeff n * (- x) ^ n) = (\<lambda>n. - (gauss_coeff n * x ^ n))"
    by (rule ext) (auto simp: gauss_coeff_def)
  then show ?thesis
    by (simp add: gauss_int_def suminf_minus gauss_coeff_summable)
qed

lemma DERIV_cos_int: "(cos_int k has_real_derivative cos t ^ k) (at t)"
proof (induction k t rule: cos_int.induct)
  case (1 t)
  have "cos_int 0 = (\<lambda>t. t)" by (rule ext) simp
  then show ?case by simp
next
  case (2 t)
  have "cos_int (Suc 0) = sin" by (rule ext) simp
  then show ?case by (auto intro!: derivative_eq_intros)
next
  case (3 k t)
  have eq: "cos_int (Suc (Suc k)) =
      (\<lambda>t. (cos t ^ Suc k * sin t + real (k + 1) * cos_int k t) / real (k + 2))"
    by (rule ext) simp
  have s: "sin t * sin t = 1 - cos t * cos t"
    using sin_cos_squared_add [of t] by (simp add: power2_eq_square)
  have d1: "((\<lambda>t. cos t ^ Suc k) has_real_derivative real (Suc k) * cos t ^ k * (- sin t)) (at t)"
    using DERIV_power [OF DERIV_cos, where x = t and n = "Suc k"] by (simp add: mult_ac)
  have d2: "((\<lambda>t. cos t ^ Suc k * sin t) has_real_derivative
      cos t ^ Suc k * cos t + real (Suc k) * cos t ^ k * (- sin t) * sin t) (at t)"
    by (rule DERIV_mult' [OF d1 DERIV_sin])
  have d3: "((\<lambda>t. real (k + 1) * cos_int k t) has_real_derivative real (k + 1) * cos t ^ k) (at t)"
    by (rule DERIV_cmult [OF "3.IH"])
  have d4: "((\<lambda>t. (cos t ^ Suc k * sin t + real (k + 1) * cos_int k t) / real (k + 2))
      has_real_derivative
      (cos t ^ Suc k * cos t + real (Suc k) * cos t ^ k * (- sin t) * sin t
         + real (k + 1) * cos t ^ k) / real (k + 2)) (at t)"
    by (rule DERIV_cdivide [OF DERIV_add [OF d2 d3]])
  have "real (Suc k) * cos t ^ k * (- sin t) * sin t = - (real (Suc k) * cos t ^ k * (sin t * sin t))"
    by simp
  also have "\<dots> = - (real (Suc k) * cos t ^ k * (1 - cos t * cos t))"
    by (simp only: s)
  finally have e1: "real (Suc k) * cos t ^ k * (- sin t) * sin t
      = - (real (Suc k) * cos t ^ k * (1 - cos t * cos t))" .
  have "cos t ^ Suc k * cos t + real (Suc k) * cos t ^ k * (- sin t) * sin t
         + real (k + 1) * cos t ^ k = real (k + 2) * cos t ^ Suc (Suc k)"
    unfolding e1 by (simp add: algebra_simps)
  then have "(cos t ^ Suc k * cos t + real (Suc k) * cos t ^ k * (- sin t) * sin t
         + real (k + 1) * cos t ^ k) / real (k + 2) = cos t ^ Suc (Suc k)"
    by simp
  with d4 show ?case
    by (simp only: eq)
qed

lemma cos_int_at_0: "cos_int k 0 = 0 \<and> cos_int (Suc k) 0 = 0"
  by (induction k) simp_all

lemma cos_int_half_pi_pos: "0 < cos_int k (pi / 2) \<and> 0 < cos_int (Suc k) (pi / 2)"
  by (induction k) simp_all

lemma wallis_0: "wallis 0 = pi / 2"
  by (simp add: wallis_def)

lemma wallis_1: "wallis (Suc 0) = 1"
  by (simp add: wallis_def)

lemma wallis_Suc_Suc: "wallis (Suc (Suc k)) = real (k + 1) / real (k + 2) * wallis k"
  by (simp add: wallis_def)

lemma wallis_prod: "wallis k * wallis (Suc k) = pi / (2 * real (k + 1))"
proof (induction k)
  case 0
  show ?case by (simp add: wallis_0 wallis_1)
next
  case (Suc k)
  have "wallis (Suc k) * wallis (Suc (Suc k))
      = real (k + 1) / real (k + 2) * (wallis k * wallis (Suc k))"
    by (simp add: wallis_Suc_Suc)
  also have "\<dots> = pi / (2 * real (Suc k + 1))"
    by (simp only: Suc.IH) (simp add: divide_simps, simp add: algebra_simps)
  finally show ?case .
qed

lemma wallis_pos: "0 < wallis k"
  using cos_int_half_pi_pos [of k] by (simp add: wallis_def)

lemma cos_int_Suc_le:
  assumes "0 \<le> t" "t \<le> pi / 2"
  shows "cos_int (Suc k) t \<le> cos_int k t"
proof -
  have "cos_int k 0 - cos_int (Suc k) 0 \<le> cos_int k t - cos_int (Suc k) t"
  proof (rule DERIV_nonneg_imp_nondecreasing [OF assms(1)])
    fix s assume s: "0 \<le> s" "s \<le> t"
    have c: "0 \<le> cos s" "cos s \<le> 1"
      using s assms(2) by (auto intro!: cos_ge_zero)
    have "((\<lambda>t. cos_int k t - cos_int (Suc k) t) has_real_derivative cos s ^ k - cos s ^ Suc k) (at s)"
      by (intro derivative_intros DERIV_cos_int)
    moreover have "0 \<le> cos s ^ k - cos s ^ Suc k"
    proof -
      have "cos s ^ Suc k = cos s ^ k * cos s" by simp
      also have "\<dots> \<le> cos s ^ k * 1"
        using c by (intro mult_left_mono) auto
      finally show ?thesis by simp
    qed
    ultimately show "\<exists>y. ((\<lambda>t. cos_int k t - cos_int (Suc k) t) has_real_derivative y) (at s) \<and> 0 \<le> y"
      by blast
  qed
  then show ?thesis by (simp add: cos_int_at_0 del: cos_int.simps)
qed

lemma wallis_even_bound:
  assumes "0 < m"
  shows "(wallis (2 * m))\<^sup>2 \<le> pi / (4 * real m)"
proof -
  obtain j where j: "2 * m = Suc j"
    using assms by (cases m) auto
  have "wallis (Suc j) \<le> wallis j"
    unfolding wallis_def by (rule cos_int_Suc_le) auto
  then have "wallis (Suc j) * wallis (Suc j) \<le> wallis j * wallis (Suc j)"
    using wallis_pos [of "Suc j"] by (intro mult_right_mono) auto
  also have "\<dots> = pi / (2 * real (j + 1))"
    by (rule wallis_prod)
  also have "real (j + 1) = 2 * real m"
    using j by (simp flip: j)
  finally show ?thesis
    by (simp add: power2_eq_square j)
qed

lemma cos_int_even_mono:
  assumes "s \<le> t"
  shows "cos_int (2 * m) s \<le> cos_int (2 * m) t"
proof (rule DERIV_nonneg_imp_nondecreasing [OF assms])
  fix u :: real
  have "0 \<le> (cos u ^ m)\<^sup>2" by simp
  then have "0 \<le> cos u ^ (2 * m)"
    by (simp add: power_mult mult.commute flip: power_mult)
  then show "\<exists>y. (cos_int (2 * m) has_real_derivative y) (at u) \<and> 0 \<le> y"
    using DERIV_cos_int [of "2 * m" u] by blast
qed

lemma gauss_bound_deriv:
  assumes c: "0 < c"
  shows "((\<lambda>x. c * cos_int (2 * m) (arctan (x / c))) has_real_derivative
           1 / (1 + (x / c)\<^sup>2) ^ Suc m) (at x)"
proof -
  let ?u = "x / c"
  have pos: "0 < 1 + ?u\<^sup>2"
    by (simp add: add_pos_nonneg)
  have d1: "((\<lambda>x. x / c) has_real_derivative 1 / c) (at x)"
    using DERIV_cdivide [OF DERIV_ident, of c x] by simp
  have d2: "((\<lambda>x. arctan (x / c)) has_real_derivative inverse (1 + ?u\<^sup>2) * (1 / c)) (at x)"
    by (rule DERIV_chain2 [OF DERIV_arctan d1])
  have d3: "((\<lambda>x. cos_int (2 * m) (arctan (x / c))) has_real_derivative
      cos (arctan ?u) ^ (2 * m) * (inverse (1 + ?u\<^sup>2) * (1 / c))) (at x)"
    by (rule DERIV_chain2 [OF DERIV_cos_int d2])
  have d4: "((\<lambda>x. c * cos_int (2 * m) (arctan (x / c))) has_real_derivative
      c * (cos (arctan ?u) ^ (2 * m) * (inverse (1 + ?u\<^sup>2) * (1 / c)))) (at x)"
    by (rule DERIV_cmult [OF d3])
  have "(cos (arctan ?u))\<^sup>2 = 1 / (1 + ?u\<^sup>2)"
    using pos by (simp add: cos_arctan power_divide)
  then have "cos (arctan ?u) ^ (2 * m) = (1 / (1 + ?u\<^sup>2)) ^ m"
    by (simp add: power_mult)
  then have "c * (cos (arctan ?u) ^ (2 * m) * (inverse (1 + ?u\<^sup>2) * (1 / c)))
      = 1 / (1 + ?u\<^sup>2) ^ Suc m"
    using c by (simp add: power_divide divide_simps)
  with d4 show ?thesis by simp
qed

lemma exp_neg_half_square_le:
  assumes "0 < c" "c\<^sup>2 = 2 * real (Suc m)"
  shows "exp (- (x\<^sup>2) / 2) \<le> 1 / (1 + (x / c)\<^sup>2) ^ Suc m"
proof -
  let ?y = "(x / c)\<^sup>2"
  have nz: "real (Suc m) \<noteq> 0" by simp
  have "real (Suc m) * ?y = real (Suc m) * (x\<^sup>2 / c\<^sup>2)"
    by (simp only: power_divide)
  also have "\<dots> = real (Suc m) * (x\<^sup>2 / (2 * real (Suc m)))"
    by (simp only: assms(2))
  also have "\<dots> = x\<^sup>2 / 2"
    using nz by (simp add: field_simps del: of_nat_Suc)
  finally have y: "real (Suc m) * ?y = x\<^sup>2 / 2" .
  have "(1 + ?y) ^ Suc m \<le> exp ?y ^ Suc m"
    by (intro power_mono exp_ge_add_one_self) (simp add: add_nonneg_nonneg)
  also have "\<dots> = exp (real (Suc m) * ?y)"
    by (rule exp_of_nat_mult [symmetric])
  finally have le: "(1 + ?y) ^ Suc m \<le> exp (x\<^sup>2 / 2)"
    by (simp only: y)
  have pos: "0 < (1 + ?y) ^ Suc m"
    by (intro zero_less_power) (simp add: add_pos_nonneg)
  have "exp (- (x\<^sup>2) / 2) = 1 / exp (x\<^sup>2 / 2)"
    by (simp add: exp_minus inverse_eq_divide)
  also have "\<dots> \<le> 1 / (1 + ?y) ^ Suc m"
    using le pos by (intro divide_left_mono) auto
  finally show ?thesis .
qed

lemma gauss_int_le_wallis:
  assumes x: "0 \<le> x"
  shows "gauss_int x \<le> sqrt (2 * real (Suc m)) * wallis (2 * m)"
proof -
  define c where "c = sqrt (2 * real (Suc m))"
  have c: "0 < c" and c2: "c\<^sup>2 = 2 * real (Suc m)"
    by (simp_all add: c_def)
  let ?B = "\<lambda>x. c * cos_int (2 * m) (arctan (x / c))"
  have "?B 0 - gauss_int 0 \<le> ?B x - gauss_int x"
  proof (rule DERIV_nonneg_imp_nondecreasing [OF x])
    fix s :: real
    have "((\<lambda>x. ?B x - gauss_int x) has_real_derivative
        1 / (1 + (s / c)\<^sup>2) ^ Suc m - exp (- (s\<^sup>2) / 2)) (at s)"
      by (rule DERIV_diff [OF gauss_bound_deriv [OF c] DERIV_gauss_int])
    moreover have "0 \<le> 1 / (1 + (s / c)\<^sup>2) ^ Suc m - exp (- (s\<^sup>2) / 2)"
      using exp_neg_half_square_le [OF c c2, of s] by simp
    ultimately show "\<exists>y. ((\<lambda>x. ?B x - gauss_int x) has_real_derivative y) (at s) \<and> 0 \<le> y"
      by blast
  qed
  then have "gauss_int x \<le> ?B x"
    using cos_int_at_0 [of "2 * m"] by (simp add: gauss_int_0)
  also have "\<dots> \<le> c * cos_int (2 * m) (pi / 2)"
  proof (rule mult_left_mono)
    show "cos_int (2 * m) (arctan (x / c)) \<le> cos_int (2 * m) (pi / 2)"
      by (rule cos_int_even_mono) (rule less_imp_le [OF arctan_ubound])
    show "0 \<le> c" using c by simp
  qed
  finally show ?thesis
    by (simp only: c_def wallis_def)
qed

lemma gauss_int_nonneg: "0 \<le> x \<Longrightarrow> 0 \<le> gauss_int x"
proof -
  assume x: "0 \<le> x"
  have "gauss_int 0 \<le> gauss_int x"
    by (rule DERIV_nonneg_imp_nondecreasing [OF x]) (use DERIV_gauss_int in \<open>force\<close>)
  then show ?thesis by (simp add: gauss_int_0)
qed

lemma gauss_int_strict_mono: "x < y \<Longrightarrow> gauss_int x < gauss_int y"
  by (rule DERIV_pos_imp_increasing) (use DERIV_gauss_int in \<open>force\<close>)+

lemma gauss_int_square_le:
  assumes x: "0 \<le> x" and m: "0 < m"
  shows "(gauss_int x)\<^sup>2 \<le> pi / 2 + pi / (2 * real m)"
proof -
  have "(gauss_int x)\<^sup>2 \<le> (sqrt (2 * real (Suc m)) * wallis (2 * m))\<^sup>2"
    by (intro power_mono gauss_int_le_wallis gauss_int_nonneg x)
  also have "\<dots> = 2 * real (Suc m) * (wallis (2 * m))\<^sup>2"
    by (simp add: power_mult_distrib)
  also have "\<dots> \<le> 2 * real (Suc m) * (pi / (4 * real m))"
    by (intro mult_left_mono wallis_even_bound m) simp
  also have "\<dots> = pi / 2 + pi / (2 * real m)"
    using m by (simp add: field_simps)
  finally show ?thesis .
qed

lemma gauss_int_le_sqrt_half_pi:
  assumes x: "0 \<le> x"
  shows "gauss_int x \<le> sqrt (pi / 2)"
proof -
  have "(gauss_int x)\<^sup>2 \<le> pi / 2"
  proof (rule ccontr)
    assume "\<not> (gauss_int x)\<^sup>2 \<le> pi / 2"
    then have d: "0 < (gauss_int x)\<^sup>2 - pi / 2" by simp
    obtain n :: nat where n: "pi / (2 * ((gauss_int x)\<^sup>2 - pi / 2)) < real n"
      using reals_Archimedean2 by blast
    have "0 < pi / (2 * ((gauss_int x)\<^sup>2 - pi / 2))"
      using d by simp
    with n have n0: "0 < n"
      by (cases n) auto
    from n d have "pi < real n * (2 * ((gauss_int x)\<^sup>2 - pi / 2))"
      by (simp add: pos_divide_less_eq)
    then have "pi / (2 * real n) < (gauss_int x)\<^sup>2 - pi / 2"
      using n0 by (simp add: pos_divide_less_eq mult_ac)
    with gauss_int_square_le [OF x n0] show False by simp
  qed
  then show ?thesis
    by (rule real_le_rsqrt)
qed

lemma gauss_int_abs_less: "\<bar>gauss_int x\<bar> < sqrt (pi / 2)"
proof -
  have pos: "gauss_int y < sqrt (pi / 2)" if "0 \<le> y" for y
  proof -
    have "gauss_int y < gauss_int (y + 1)"
      by (rule gauss_int_strict_mono) simp
    also have "\<dots> \<le> sqrt (pi / 2)"
      using that by (intro gauss_int_le_sqrt_half_pi) simp
    finally show ?thesis .
  qed
  show ?thesis
  proof (cases "0 \<le> x")
    case True
    then show ?thesis
      using pos [of x] gauss_int_nonneg [of x] by simp
  next
    case False
    then have "0 \<le> - x" by simp
    then show ?thesis
      using pos [of "- x"] gauss_int_nonneg [of "- x"] by (simp add: gauss_int_minus)
  qed
qed

section \<open>Facts about the normal distribution\<close>

text \<open>
  \<open>norm_cdf\<close> is the antiderivative of \<open>norm_pdf\<close> with \<open>norm_cdf 0 = 1 / 2\<close>; it is
  symmetric, \<open>norm_cdf (- x) = 1 - norm_cdf x\<close>, and lies strictly between \<open>0\<close> and \<open>1\<close>.
\<close>

lemma sqrt_two_pi_pos: "0 < sqrt (2 * pi)"
  by simp

lemma norm_pdf_pos: "0 < norm_pdf x"
  by (simp add: norm_pdf_def)

lemma norm_cdf_0: "norm_cdf 0 = 1 / 2"
  by (simp add: norm_cdf_def gauss_int_0)

lemma DERIV_norm_cdf: "(norm_cdf has_real_derivative norm_pdf x) (at x)"
proof -
  have "((\<lambda>x. 1 / 2 + gauss_int x / sqrt (2 * pi)) has_real_derivative
      0 + exp (- (x\<^sup>2) / 2) / sqrt (2 * pi)) (at x)"
    by (rule DERIV_add [OF DERIV_const DERIV_cdivide [OF DERIV_gauss_int]])
  moreover have "(\<lambda>x. 1 / 2 + gauss_int x / sqrt (2 * pi)) = norm_cdf"
    by (rule ext) (simp add: norm_cdf_def)
  ultimately show ?thesis
    by (simp add: norm_pdf_def)
qed

lemma norm_cdf_minus: "norm_cdf (- x) = 1 - norm_cdf x"
  by (simp add: norm_cdf_def gauss_int_minus)

lemma gauss_int_over_sqrt: "\<bar>gauss_int x / sqrt (2 * pi)\<bar> < 1 / 2"
proof -
  have "sqrt (pi / 2) * 2 = sqrt (2 * pi)"
  proof -
    have "sqrt (pi / 2) * 2 = sqrt (pi / 2) * sqrt 4" by simp
    also have "\<dots> = sqrt (pi / 2 * 4)" by (rule real_sqrt_mult [symmetric])
    finally show ?thesis by simp
  qed
  then have "sqrt (pi / 2) / sqrt (2 * pi) = 1 / 2"
    using sqrt_two_pi_pos by (simp add: divide_simps del: real_sqrt_gt_0_iff)
  moreover have "\<bar>gauss_int x\<bar> / sqrt (2 * pi) < sqrt (pi / 2) / sqrt (2 * pi)"
    using gauss_int_abs_less [of x] sqrt_two_pi_pos by (intro divide_strict_right_mono)
  ultimately show ?thesis
    using sqrt_two_pi_pos by (simp add: abs_divide del: real_sqrt_gt_0_iff)
qed

lemma norm_cdf_pos: "0 < norm_cdf x"
  using gauss_int_over_sqrt [of x] unfolding norm_cdf_def abs_less_iff by linarith

lemma norm_cdf_less_1: "norm_cdf x < 1"
  using gauss_int_over_sqrt [of x] unfolding norm_cdf_def abs_less_iff by linarith

section \<open>The pricer on its domain\<close>

lemma black_scholes_call:
  assumes "0 < S" "0 < K" "0 < T" "sigma \<noteq> 0"
  shows "black_scholes S K T r sigma ''call'' = Inr (Num (call_price S K T r sigma))"
  using assms
  by (simp add: black_scholes_def np_result_def np_defined_def call_price_def bs_d1_def bs_d2_def Let_def)

lemma black_scholes_put:
  assumes "0 < S" "0 < K" "0 < T" "sigma \<noteq> 0"
  shows "black_scholes S K T r sigma ''put'' = Inr (Num (put_price S K T r sigma))"
  using assms
  by (simp add: black_scholes_def np_result_def np_defined_def put_price_def bs_d1_def bs_d2_def Let_def)

lemma parity_real: "call_price S K T r sigma - put_price S K T r sigma = S - K * exp (- r * T)"
  by (simp add: call_price_def put_price_def norm_cdf_minus algebra_simps)

lemma dividends_call:
  assumes "0 < S" "0 < K" "0 < T" "sigma \<noteq> 0"
  shows "black_scholes_with_dividends S K T r sigma q ''call'' =
     Inr (Num (S * exp (- q * T) * norm_cdf (bs_d1 S K T (r - q) sigma)
               - K * exp (- r * T) * norm_cdf (bs_d2 S K T (r - q) sigma)))"
  using assms
  by (simp add: black_scholes_with_dividends_def np_result_def np_defined_def bs_d1_def
      bs_d2_def Let_def)

lemma dividends_not_call:
  assumes "0 < S" "0 < K" "0 < T" "sigma \<noteq> 0" "option_type \<noteq> ''call''"
  shows "black_scholes_with_dividends S K T r sigma q option_type =
     Inr (Num (K * exp (- r * T) * norm_cdf (- bs_d2 S K T (r - q) sigma)
               - S * exp (- q * T) * norm_cdf (- bs_d1 S K T (r - q) sigma)))"
  using assms
  by (simp add: black_scholes_with_dividends_def np_result_def np_defined_def bs_d1_def
      bs_d2_def Let_def)

section \<open>Put-call parity\<close>

text \<open>
  C1. For \<open>S > 0\<close>, \<open>K > 0\<close>, \<open>T > 0\<close> and \<open>sigma > 0\<close> both pricers return a call price and a
  put price, and the call price minus the put price is \<open>S exp (- q T) - K exp (- r T)\<close>,
  with \<open>q = 0\<close> for the pricer without dividends. On the reals the equation is exact.
\<close>

theorem put_call_parity:
  assumes "0 < S" "0 < K" "0 < T" "0 < sigma"
  shows "(\<exists>c p. black_scholes S K T r sigma ''call'' = Inr (Num c)
            \<and> black_scholes S K T r sigma ''put'' = Inr (Num p)
            \<and> c - p = S - K * exp (- r * T))
       \<and> (\<exists>c p. black_scholes_with_dividends S K T r sigma q ''call'' = Inr (Num c)
            \<and> black_scholes_with_dividends S K T r sigma q ''put'' = Inr (Num p)
            \<and> c - p = S * exp (- q * T) - K * exp (- r * T))"
proof
  have "sigma \<noteq> 0" using assms by simp
  then show "\<exists>c p. black_scholes S K T r sigma ''call'' = Inr (Num c)
            \<and> black_scholes S K T r sigma ''put'' = Inr (Num p)
            \<and> c - p = S - K * exp (- r * T)"
    using assms by (simp add: black_scholes_call black_scholes_put parity_real)
next
  have nz: "sigma \<noteq> 0" using assms by simp
  have "(S * exp (- q * T) * norm_cdf (bs_d1 S K T (r - q) sigma)
           - K * exp (- r * T) * norm_cdf (bs_d2 S K T (r - q) sigma))
      - (K * exp (- r * T) * norm_cdf (- bs_d2 S K T (r - q) sigma)
           - S * exp (- q * T) * norm_cdf (- bs_d1 S K T (r - q) sigma))
      = S * exp (- q * T) - K * exp (- r * T)"
    by (simp add: norm_cdf_minus algebra_simps)
  then show "\<exists>c p. black_scholes_with_dividends S K T r sigma q ''call'' = Inr (Num c)
            \<and> black_scholes_with_dividends S K T r sigma q ''put'' = Inr (Num p)
            \<and> c - p = S * exp (- q * T) - K * exp (- r * T)"
    using assms(1-3) nz by (simp add: dividends_call dividends_not_call)
qed

theorem put_call_parity_witness:
  "(\<exists>c p. black_scholes 100 100 1 (1 / 20) (1 / 5) ''call'' = Inr (Num c)
      \<and> black_scholes 100 100 1 (1 / 20) (1 / 5) ''put'' = Inr (Num p)
      \<and> c - p = 100 - 100 * exp (- (1 / 20) * 1))
   \<and> (\<exists>c p. black_scholes_with_dividends 100 100 1 (1 / 20) (1 / 5) (1 / 50) ''call'' = Inr (Num c)
      \<and> black_scholes_with_dividends 100 100 1 (1 / 20) (1 / 5) (1 / 50) ''put'' = Inr (Num p)
      \<and> c - p = 100 * exp (- (1 / 50) * 1) - 100 * exp (- (1 / 20) * 1))"
  by (rule put_call_parity) simp_all

section \<open>Volatility and expiry that are not positive\<close>




section \<open>The dividend-adjusted pricer and unknown option types\<close>

text \<open>
  C4 says that both pricers reject an option type that is neither call nor put. The
  pricer without dividends does: it raises \<open>ValueError\<close>. The dividend-adjusted pricer has
  no such branch: for the option type \<open>straddle\<close> it returns the put price.
\<close>

theorem dividends_unknown_option_type:
  "black_scholes 100 100 1 (1 / 20) (1 / 5) ''straddle'' = Inl ValueError
   \<and> black_scholes_with_dividends 100 100 1 (1 / 20) (1 / 5) 0 ''straddle''
       = Inr (Num (100 * exp (- (1 / 20)) * norm_cdf (- (3 / 20)) - 100 * norm_cdf (- (7 / 20))))
   \<and> black_scholes_with_dividends 100 100 1 (1 / 20) (1 / 5) 0 ''straddle''
       = black_scholes_with_dividends 100 100 1 (1 / 20) (1 / 5) 0 ''put''"
proof -
  have e1: "bs_d1 100 100 1 (1 / 20) (1 / 5) = 7 / 20"
    by (simp add: bs_d1_def power2_eq_square)
  have e2: "bs_d2 100 100 1 (1 / 20) (1 / 5) = 3 / 20"
    by (simp add: bs_d2_def bs_d1_def power2_eq_square)
  have "black_scholes 100 100 1 (1 / 20) (1 / 5) ''straddle'' = Inl ValueError"
    by (simp add: black_scholes_def Let_def)
  then show ?thesis
    by (simp add: dividends_not_call e1 e2)
qed

section \<open>The dividend-adjusted pricer at yield zero\<close>

text \<open>
  C5. For \<open>S > 0\<close>, \<open>K > 0\<close>, \<open>T > 0\<close>, \<open>sigma > 0\<close> and option type call or put, the
  dividend-adjusted pricer called with \<open>q = 0\<close> returns the same price as the pricer
  without dividends.
\<close>

theorem dividends_zero_yield:
  assumes "0 < S" "0 < K" "0 < T" "0 < sigma"
    and "option_type = ''call'' \<or> option_type = ''put''"
  shows "\<exists>p. black_scholes_with_dividends S K T r sigma 0 option_type = Inr (Num p)
           \<and> black_scholes S K T r sigma option_type = Inr (Num p)"
proof -
  have nz: "sigma \<noteq> 0" using assms by simp
  from assms(5) show ?thesis
  proof
    assume "option_type = ''call''"
    then show ?thesis
      using assms(1-3) nz by (simp add: dividends_call black_scholes_call call_price_def)
  next
    assume "option_type = ''put''"
    then show ?thesis
      using assms(1-3) nz by (simp add: dividends_not_call black_scholes_put put_price_def)
  qed
qed

theorem dividends_zero_yield_witness:
  "\<exists>p. black_scholes_with_dividends 100 100 1 (1 / 20) (1 / 5) 0 ''put'' = Inr (Num p)
     \<and> black_scholes 100 100 1 (1 / 20) (1 / 5) ''put'' = Inr (Num p)"
  by (rule dividends_zero_yield) simp_all

section \<open>The Greeks\<close>

lemma greeks_on_domain:
  assumes "0 < S" "0 < K" "0 < T" "sigma \<noteq> 0"
  shows "black_scholes_greeks S K T r sigma option_type =
    Inr (Num
      [''Delta'' \<mapsto> (if option_type = ''call'' then norm_cdf (bs_d1 S K T r sigma)
                       else norm_cdf (bs_d1 S K T r sigma) - 1),
       ''Gamma'' \<mapsto> norm_pdf (bs_d1 S K T r sigma) / (S * sigma * sqrt T),
       ''Vega'' \<mapsto> S * norm_pdf (bs_d1 S K T r sigma) * sqrt T / 100,
       ''Theta'' \<mapsto> (if option_type = ''call''
                       then - S * norm_pdf (bs_d1 S K T r sigma) * sigma / (2 * sqrt T)
                              - r * K * exp (- r * T) * norm_cdf (bs_d2 S K T r sigma)
                       else - S * norm_pdf (bs_d1 S K T r sigma) * sigma / (2 * sqrt T)
                              + r * K * exp (- r * T) * norm_cdf (- bs_d2 S K T r sigma)) / 365,
       ''Rho'' \<mapsto> (if option_type = ''call''
                     then K * T * exp (- r * T) * norm_cdf (bs_d2 S K T r sigma)
                     else - K * T * exp (- r * T) * norm_cdf (- bs_d2 S K T r sigma)) / 100])"
  using assms
  by (simp add: black_scholes_greeks_def np_result_def np_defined_def bs_d1_def bs_d2_def Let_def)

text \<open>
  C6. For \<open>S > 0\<close>, \<open>K > 0\<close>, \<open>T > 0\<close>, \<open>sigma > 0\<close> the Greeks are a mapping with exactly
  the five keys Delta, Gamma, Vega, Theta and Rho. With \<open>d1\<close> and \<open>d2\<close> as in the pricer:
  Delta is \<open>\<Phi> d1\<close> for a call and \<open>\<Phi> d1 - 1\<close> for a put; Gamma is
  \<open>\<phi> d1 / (S sigma sqrt T)\<close>; Vega is \<open>S \<phi> d1 sqrt T\<close> over 100; Theta is
  \<open>- S \<phi> d1 sigma / (2 sqrt T) - r K exp (- r T) \<Phi> d2\<close> for a call and
  \<open>- S \<phi> d1 sigma / (2 sqrt T) + r K exp (- r T) \<Phi> (- d2)\<close> for a put, over 365; Rho is
  \<open>K T exp (- r T) \<Phi> d2\<close> for a call and \<open>- K T exp (- r T) \<Phi> (- d2)\<close> for a put, over
  100.
\<close>

theorem greeks_formulas:
  assumes "0 < S" "0 < K" "0 < T" "0 < sigma"
    and d1: "d1 = (ln (S / K) + (r + 0.5 * sigma\<^sup>2) * T) / (sigma * sqrt T)"
    and d2: "d2 = d1 - sigma * sqrt T"
  shows "(\<exists>g. black_scholes_greeks S K T r sigma ''call'' = Inr (Num g)
      \<and> dom g = {''Delta'', ''Gamma'', ''Vega'', ''Theta'', ''Rho''}
      \<and> g ''Delta'' = Some (norm_cdf d1)
      \<and> g ''Gamma'' = Some (norm_pdf d1 / (S * sigma * sqrt T))
      \<and> g ''Vega'' = Some (S * norm_pdf d1 * sqrt T / 100)
      \<and> g ''Theta'' = Some ((- S * norm_pdf d1 * sigma / (2 * sqrt T)
                               - r * K * exp (- r * T) * norm_cdf d2) / 365)
      \<and> g ''Rho'' = Some (K * T * exp (- r * T) * norm_cdf d2 / 100))
    \<and> (\<exists>g. black_scholes_greeks S K T r sigma ''put'' = Inr (Num g)
      \<and> dom g = {''Delta'', ''Gamma'', ''Vega'', ''Theta'', ''Rho''}
      \<and> g ''Delta'' = Some (norm_cdf d1 - 1)
      \<and> g ''Gamma'' = Some (norm_pdf d1 / (S * sigma * sqrt T))
      \<and> g ''Vega'' = Some (S * norm_pdf d1 * sqrt T / 100)
      \<and> g ''Theta'' = Some ((- S * norm_pdf d1 * sigma / (2 * sqrt T)
                               + r * K * exp (- r * T) * norm_cdf (- d2)) / 365)
      \<and> g ''Rho'' = Some (- K * T * exp (- r * T) * norm_cdf (- d2) / 100))"
proof -
  have nz: "sigma \<noteq> 0" using assms by simp
  have e1: "bs_d1 S K T r sigma = d1"
    by (simp add: bs_d1_def d1)
  have e2: "bs_d2 S K T r sigma = d2"
    by (simp add: bs_d2_def e1 d2)
  show ?thesis
    unfolding greeks_on_domain [OF assms(1-3) nz] e1 e2
    by (intro conjI exI [where x = "[''Delta'' \<mapsto> _, ''Gamma'' \<mapsto> _, ''Vega'' \<mapsto> _,
          ''Theta'' \<mapsto> _, ''Rho'' \<mapsto> _]"]) auto
qed

theorem greeks_formulas_witness:
  "(\<exists>g. black_scholes_greeks 100 100 1 (1 / 20) (1 / 5) ''call'' = Inr (Num g)
      \<and> dom g = {''Delta'', ''Gamma'', ''Vega'', ''Theta'', ''Rho''}
      \<and> g ''Delta'' = Some (norm_cdf (7 / 20))
      \<and> g ''Gamma'' = Some (norm_pdf (7 / 20) / (100 * (1 / 5) * sqrt 1))
      \<and> g ''Vega'' = Some (100 * norm_pdf (7 / 20) * sqrt 1 / 100)
      \<and> g ''Theta'' = Some ((- 100 * norm_pdf (7 / 20) * (1 / 5) / (2 * sqrt 1)
                               - (1 / 20) * 100 * exp (- (1 / 20) * 1) * norm_cdf (3 / 20)) / 365)
      \<and> g ''Rho'' = Some (100 * 1 * exp (- (1 / 20) * 1) * norm_cdf (3 / 20) / 100))
    \<and> (\<exists>g. black_scholes_greeks 100 100 1 (1 / 20) (1 / 5) ''put'' = Inr (Num g)
      \<and> dom g = {''Delta'', ''Gamma'', ''Vega'', ''Theta'', ''Rho''}
      \<and> g ''Delta'' = Some (norm_cdf (7 / 20) - 1)
      \<and> g ''Gamma'' = Some (norm_pdf (7 / 20) / (100 * (1 / 5) * sqrt 1))
      \<and> g ''Vega'' = Some (100 * norm_pdf (7 / 20) * sqrt 1 / 100)
      \<and> g ''Theta'' = Some ((- 100 * norm_pdf (7 / 20) * (1 / 5) / (2 * sqrt 1)
                               + (1 / 20) * 100 * exp (- (1 / 20) * 1) * norm_cdf (- (3 / 20))) / 365)
      \<and> g ''Rho'' = Some (- 100 * 1 * exp (- (1 / 20) * 1) * norm_cdf (- (3 / 20)) / 100))"
  by (rule greeks_formulas) (simp_all add: power2_eq_square)

section \<open>The Monte Carlo estimator\<close>

lemma standard_normal_length: "length (fst (standard_normal rng n g)) = n"
  by (induction n arbitrary: g) (simp_all add: split_def Let_def)

lemma monte_carlo_result:
  assumes "0 \<le> simulations"
  shows "fst (monte_carlo_option_price rng g_in S K T r sigma simulations option_type) =
    Inr (np_result (0 \<le> T \<and> simulations \<noteq> 0)
      (exp (- r * T) * mean
        (if option_type = ''call''
         then map (\<lambda>st. max (st - K) 0)
                (map (\<lambda>z. S * exp ((r - 0.5 * sigma\<^sup>2) * T + sigma * sqrt T * z))
                  (fst (standard_normal rng (nat simulations) (seed rng 42))))
         else map (\<lambda>st. max (K - st) 0)
                (map (\<lambda>z. S * exp ((r - 0.5 * sigma\<^sup>2) * T + sigma * sqrt T * z))
                  (fst (standard_normal rng (nat simulations) (seed rng 42)))))))"
  using assms
  by (simp add: monte_carlo_option_price_def Let_def split_def del: map_map)

text \<open>
  C7. For \<open>S > 0\<close>, \<open>K > 0\<close>, \<open>T > 0\<close>, \<open>sigma > 0\<close> and \<open>n > 0\<close> paths the estimator seeds
  the generator with 42, draws \<open>n\<close> standard-normal variates \<open>Z\<close>, forms the terminal
  prices \<open>S exp ((r - sigma\<^sup>2 / 2) T + sigma sqrt T z)\<close>, takes the payoff
  \<open>max (ST - K) 0\<close> for a call and \<open>max (K - ST) 0\<close> otherwise, and returns
  \<open>exp (- r T)\<close> times the sum of the payoffs over \<open>n\<close>. The result does not depend on
  the state the generator was in before the call: two calls with the same arguments
  return the same value.
\<close>

theorem monte_carlo_estimate:
  assumes "0 < S" "0 < K" "0 < T" "0 < sigma" "0 < simulations"
    and Z: "Z = fst (standard_normal rng (nat simulations) (seed rng 42))"
    and ST: "ST = map (\<lambda>z. S * exp ((r - 0.5 * sigma\<^sup>2) * T + sigma * sqrt T * z)) Z"
  shows "length Z = nat simulations
    \<and> fst (monte_carlo_option_price rng g_in S K T r sigma simulations ''call'')
         = Inr (Num (exp (- r * T) * (sum_list (map (\<lambda>st. max (st - K) 0) ST) / real_of_int simulations)))
    \<and> fst (monte_carlo_option_price rng g_in S K T r sigma simulations ''put'')
         = Inr (Num (exp (- r * T) * (sum_list (map (\<lambda>st. max (K - st) 0) ST) / real_of_int simulations)))
    \<and> monte_carlo_option_price rng g_in S K T r sigma simulations option_type
         = monte_carlo_option_price rng g_in' S K T r sigma simulations option_type"
proof (intro conjI)
  show len: "length Z = nat simulations"
    by (simp add: Z standard_normal_length)
  have n: "real (length ST) = real_of_int simulations"
    using assms(5) by (simp add: ST len)
  have l1: "real (length (map (\<lambda>st. max (st - K) 0) ST)) = real_of_int simulations"
    using n by simp
  have l2: "real (length (map (\<lambda>st. max (K - st) 0) ST)) = real_of_int simulations"
    using n by simp
  show "fst (monte_carlo_option_price rng g_in S K T r sigma simulations ''call'')
      = Inr (Num (exp (- r * T) * (sum_list (map (\<lambda>st. max (st - K) 0) ST) / real_of_int simulations)))"
    using assms(3,5) l1
    unfolding monte_carlo_result [OF less_imp_le [OF assms(5)]] Z [symmetric] ST [symmetric]
    by (simp add: np_result_def mean_def)
  show "fst (monte_carlo_option_price rng g_in S K T r sigma simulations ''put'')
      = Inr (Num (exp (- r * T) * (sum_list (map (\<lambda>st. max (K - st) 0) ST) / real_of_int simulations)))"
    using assms(3,5) l2
    unfolding monte_carlo_result [OF less_imp_le [OF assms(5)]] Z [symmetric] ST [symmetric]
    by (simp add: np_result_def mean_def)
  show "monte_carlo_option_price rng g_in S K T r sigma simulations option_type
      = monte_carlo_option_price rng g_in' S K T r sigma simulations option_type"
    by (simp add: monte_carlo_option_price_def)
qed

theorem monte_carlo_estimate_witness:
  "fst (monte_carlo_option_price \<lparr>seed = \<lambda>s. s, draw = \<lambda>g. (real g - 42, Suc g)\<rparr> 0
          100 100 1 0 1 2 ''call'')
     = Inr (Num ((max (100 * exp (- (1 / 2)) - 100) 0 + max (100 * exp (1 / 2) - 100) 0) / 2))
   \<and> monte_carlo_option_price \<lparr>seed = \<lambda>s. s, draw = \<lambda>g. (real g - 42, Suc g)\<rparr> 0
          100 100 1 0 1 2 ''call''
     = monte_carlo_option_price \<lparr>seed = \<lambda>s. s, draw = \<lambda>g. (real g - 42, Suc g)\<rparr> 7
          100 100 1 0 1 2 ''call''"
proof -
  let ?rng = "\<lparr>seed = \<lambda>s. s, draw = \<lambda>g. (real g - 42, Suc g)\<rparr> :: nat np_random"
  have p: "(0::real) < 100" "(0::real) < 1" "(0::int) < 2"
    by simp_all
  have Z: "[0, 1] = fst (standard_normal ?rng (nat 2) (seed ?rng 42))"
    by (simp add: numeral_2_eq_2 Let_def)
  have ST: "[100 * exp (- (1 / 2)), 100 * exp (1 / 2)]
      = map (\<lambda>z. 100 * exp ((0 - 0.5 * 1\<^sup>2) * 1 + 1 * sqrt 1 * z)) [0, 1]"
    by simp
  note t = monte_carlo_estimate [OF p(1) p(1) p(2) p(2) p(3) Z ST,
      where g_in = 0 and g_in' = 7 and option_type = "''call''"]
  have a: "fst (monte_carlo_option_price ?rng 0 100 100 1 0 1 2 ''call'')
      = Inr (Num ((max (100 * exp (- (1 / 2)) - 100) 0 + max (100 * exp (1 / 2) - 100) 0) / 2))"
    using t [THEN conjunct2, THEN conjunct1] by simp
  show ?thesis
    using a t [THEN conjunct2, THEN conjunct2, THEN conjunct2] by (rule conjI)
qed

section \<open>Option types the functions do not know\<close>

text \<open>
  C10. \<open>black_scholes_greeks\<close> does not check the option type: for every option type other
  than \<open>call\<close>, whatever the string, it returns what it returns for \<open>put\<close>, and it never
  raises \<open>ValueError\<close>; where the formulas are defined these are the put-side Greeks
  (Delta \<open>\<Phi> d1 - 1\<close>, the put Theta and the put Rho). The pricer without dividends raises
  \<open>ValueError\<close> for the same option types.
\<close>

theorem greeks_unknown_option_type:
  assumes "option_type \<noteq> ''call''"
  shows "black_scholes_greeks S K T r sigma option_type = black_scholes_greeks S K T r sigma ''put''
    \<and> black_scholes_greeks S K T r sigma option_type \<noteq> Inl ValueError
    \<and> (K \<noteq> 0 \<longrightarrow> (\<exists>v. black_scholes_greeks S K T r sigma option_type = Inr v))
    \<and> (0 < S \<and> 0 < K \<and> 0 < T \<and> 0 < sigma \<longrightarrow>
         (\<exists>g. black_scholes_greeks S K T r sigma option_type = Inr (Num g)
            \<and> g ''Delta'' = Some (norm_cdf (bs_d1 S K T r sigma) - 1)
            \<and> g ''Theta'' = Some ((- S * norm_pdf (bs_d1 S K T r sigma) * sigma / (2 * sqrt T)
                 + r * K * exp (- r * T) * norm_cdf (- bs_d2 S K T r sigma)) / 365)
            \<and> g ''Rho'' = Some (- K * T * exp (- r * T) * norm_cdf (- bs_d2 S K T r sigma) / 100)))
    \<and> (option_type \<noteq> ''put'' \<and> K \<noteq> 0 \<longrightarrow>
         black_scholes S K T r sigma option_type = Inl ValueError)"
proof (intro conjI impI)
  show "black_scholes_greeks S K T r sigma option_type = black_scholes_greeks S K T r sigma ''put''"
    using assms by (simp add: black_scholes_greeks_def)
  show "black_scholes_greeks S K T r sigma option_type \<noteq> Inl ValueError"
    by (simp add: black_scholes_greeks_def Let_def)
  show "\<exists>v. black_scholes_greeks S K T r sigma option_type = Inr v" if "K \<noteq> 0"
    using that by (simp add: black_scholes_greeks_def Let_def)
  show "black_scholes S K T r sigma option_type = Inl ValueError"
    if "option_type \<noteq> ''put'' \<and> K \<noteq> 0"
    using that assms by (simp add: black_scholes_def Let_def)
  show "\<exists>g. black_scholes_greeks S K T r sigma option_type = Inr (Num g)
            \<and> g ''Delta'' = Some (norm_cdf (bs_d1 S K T r sigma) - 1)
            \<and> g ''Theta'' = Some ((- S * norm_pdf (bs_d1 S K T r sigma) * sigma / (2 * sqrt T)
                 + r * K * exp (- r * T) * norm_cdf (- bs_d2 S K T r sigma)) / 365)
            \<and> g ''Rho'' = Some (- K * T * exp (- r * T) * norm_cdf (- bs_d2 S K T r sigma) / 100)"
    if "0 < S \<and> 0 < K \<and> 0 < T \<and> 0 < sigma"
  proof -
    have "black_scholes_greeks S K T r sigma option_type = Inr (Num
      [''Delta'' \<mapsto> norm_cdf (bs_d1 S K T r sigma) - 1,
       ''Gamma'' \<mapsto> norm_pdf (bs_d1 S K T r sigma) / (S * sigma * sqrt T),
       ''Vega'' \<mapsto> S * norm_pdf (bs_d1 S K T r sigma) * sqrt T / 100,
       ''Theta'' \<mapsto> (- S * norm_pdf (bs_d1 S K T r sigma) * sigma / (2 * sqrt T)
                        + r * K * exp (- r * T) * norm_cdf (- bs_d2 S K T r sigma)) / 365,
       ''Rho'' \<mapsto> - K * T * exp (- r * T) * norm_cdf (- bs_d2 S K T r sigma) / 100])"
      using that assms by (subst greeks_on_domain) simp_all
    then show ?thesis by simp
  qed
qed

theorem greeks_unknown_option_type_witness:
  "black_scholes_greeks 100 100 1 (1 / 20) (1 / 5) ''straddle''
      = black_scholes_greeks 100 100 1 (1 / 20) (1 / 5) ''put''
    \<and> (\<exists>g. black_scholes_greeks 100 100 1 (1 / 20) (1 / 5) ''straddle'' = Inr (Num g)
          \<and> g ''Delta'' = Some (norm_cdf (bs_d1 100 100 1 (1 / 20) (1 / 5)) - 1))
    \<and> black_scholes 100 100 1 (1 / 20) (1 / 5) ''straddle'' = Inl ValueError"
  using greeks_unknown_option_type [of "''straddle''" 100 100 1 "1 / 20" "1 / 5", simplified]
  by blast

end
